theory Spec2Isabelle
  imports Main "HOL-Library.Sublist"
begin

section \<open>Data model of jsonstream\<close>

text \<open>
  A Python \<open>str\<close> is a sequence of Unicode code points; a document is modelled as a
  list of code points (\<open>nat\<close>), so that U+FEFF is a unit of its own. The diagnostic
  texts of the source are ASCII literals and are kept as HOL strings.
\<close>

type_synonym pystr = "nat list"

definition ustr :: "string \<Rightarrow> pystr" where
  "ustr s = map of_char s"

text \<open>
  \<open>JSONDecodeError\<close> carries \<open>msg\<close>, \<open>doc\<close> and \<open>pos\<close>; \<open>_update_error\<close> adds the
  attribute \<open>stream_offset\<close> (\<open>ex_stream_offset\<close>; absent, that is \<open>None\<close>, on an
  error that was never enriched). The formatted text in \<open>args\<close> receives the same number and is not
  modelled.
\<close>

record json_error =
  msg :: string
  doc :: pystr
  pos :: nat
  ex_stream_offset :: "int option"

text \<open>
  The three \<open>ValueError\<close>s of the source, by their text: \<open>Expected <separator>
  delimiter\<close>, \<open>max buffer size exceeded\<close> and \<open>expect positive value for
  bufsize\<close>. \<open>TypeError\<close> carries the name of the offending class.
\<close>

datatype value_error =
  Expected_delimiter pystr
| Max_buffer_size_exceeded
| Expect_positive_bufsize

datatype error =
  JSONDecodeError json_error
| ValueError value_error
| TypeError string
| UnicodeDecodeError
| IndexError

definition KEYWORDS :: "pystr list" where
  "KEYWORDS = [ustr ''null'', ustr ''true'', ustr ''false'', ustr ''NaN'',
               ustr ''Infinity'', ustr ''-Infinity'']"

definition MAX_KEYWORD_LEN :: nat where
  "MAX_KEYWORD_LEN = Max (set (map length KEYWORDS))"

section \<open>Separator policies\<close>

text \<open>
  \<open>str.startswith(prefix, start)\<close> for a start that is not negative: false beyond
  the end of the string, also for the empty prefix.
\<close>

definition startswith_at :: "pystr \<Rightarrow> pystr \<Rightarrow> nat \<Rightarrow> bool" where
  "startswith_at document separator p =
     (p \<le> length document \<and> prefix separator (drop p document))"

definition next_position_by_separator :: "pystr \<Rightarrow> pystr \<Rightarrow> nat \<Rightarrow> error + nat option" where
  "next_position_by_separator separator document p =
     (if startswith_at document separator p then Inr (Some (p + length separator))
      else if p = length document then Inr None
      else Inl (ValueError (Expected_delimiter separator)))"

text \<open>
  The code points that the pattern \<open>\S\<close> does not match on a \<open>str\<close>: the Unicode
  white space of \<open>str.isspace\<close>.
\<close>

definition py_isspace :: "nat \<Rightarrow> bool" where
  "py_isspace c =
     ((9 \<le> c \<and> c \<le> 13) \<or> (28 \<le> c \<and> c \<le> 32) \<or> c = 133 \<or> c = 160 \<or> c = 5760
      \<or> (8192 \<le> c \<and> c \<le> 8202) \<or> c = 8232 \<or> c = 8233 \<or> c = 8239 \<or> c = 8287
      \<or> c = 12288)"

text \<open>\<open>NOT_WHITESPACE.search(document, pos)\<close>: the first position from \<open>pos\<close> on
  that holds a unit which is not white space.\<close>

fun search_not_whitespace :: "pystr \<Rightarrow> nat \<Rightarrow> nat option" where
  "search_not_whitespace [] p = None"
| "search_not_whitespace (c # cs) p =
     (if py_isspace c then search_not_whitespace cs (Suc p) else Some p)"

definition next_position_by_non_whitespace :: "pystr \<Rightarrow> nat \<Rightarrow> error + nat option" where
  "next_position_by_non_whitespace document p =
     Inr (search_not_whitespace (drop p document) p)"

text \<open>\<open>get_first_pos_and_next_pos_func\<close>: the policy and the first position.\<close>

definition get_first_pos_and_next_pos_func ::
  "pystr option \<Rightarrow> (pystr \<Rightarrow> nat \<Rightarrow> error + nat option) \<times> nat option" where
  "get_first_pos_and_next_pos_func separator =
     (case separator of
        None \<Rightarrow> (next_position_by_non_whitespace, None)
      | Some sep \<Rightarrow> (next_position_by_separator sep, Some 0))"

section \<open>The retry classifier\<close>

text \<open>\<open>re.match\<close> of the four alternatives at the start of the message; the class
  \<open>[,:]\<close> stands for one of two characters.\<close>

definition error_message_pattern :: "string \<Rightarrow> bool" where
  "error_message_pattern m =
     (prefix ''Unterminated string starting at'' m
      \<or> prefix ''Expecting value'' m
      \<or> prefix ''Expecting property name enclosed in double quotes'' m
      \<or> prefix ''Expecting ',' delimiter'' m
      \<or> prefix ''Expecting ':' delimiter'' m)"

text \<open>Python indexing \<open>s[i]\<close>: a negative index counts from the end; out of range
  raises (\<open>None\<close>).\<close>

definition py_index :: "'a list \<Rightarrow> int \<Rightarrow> 'a option" where
  "py_index xs i =
     (if 0 \<le> i \<and> i < int (length xs) then Some (xs ! nat i)
      else if i < 0 \<and> - int (length xs) \<le> i then Some (xs ! nat (int (length xs) + i))
      else None)"

text \<open>
  \<open>_match_error\<close>. \<open>str.isdigit\<close> is a table of the Unicode database and is taken as
  a parameter. The result is \<open>None\<close> where an index of the source is out of range.
  The two edge cases of the source are named: a float split after its point, and a
  keyword split by the buffer.
\<close>

definition float_split :: "(nat \<Rightarrow> bool) \<Rightarrow> json_error \<Rightarrow> bool option" where
  "float_split isdigit ex =
     (if int (pos ex) = int (length (doc ex)) - 1 then
        (case py_index (doc ex) (int (pos ex)) of
           None \<Rightarrow> None
         | Some c \<Rightarrow>
             if c = of_char CHR ''.'' then
               (case py_index (doc ex) (int (pos ex) - 1) of
                  None \<Rightarrow> None
                | Some d \<Rightarrow> Some (isdigit d))
             else Some False)
      else Some False)"

definition keyword_split :: "json_error \<Rightarrow> bool" where
  "keyword_split ex =
     (prefix ''Expecting value'' (msg ex)
      \<and> int (length (doc ex)) - int (pos ex) < int MAX_KEYWORD_LEN
      \<and> (\<exists>kw \<in> set KEYWORDS. prefix (drop (pos ex) (doc ex)) kw))"

definition match_error :: "(nat \<Rightarrow> bool) \<Rightarrow> json_error \<Rightarrow> bool option" where
  "match_error isdigit ex =
     (if error_message_pattern (msg ex) \<and> prefix ''Expecting'' (msg ex) then
        if pos ex = length (doc ex) then Some True
        else
          (case float_split isdigit ex of
             None \<Rightarrow> None
           | Some True \<Rightarrow> Some True
           | Some False \<Rightarrow> Some (keyword_split ex))
      else Some (error_message_pattern (msg ex)))"

section \<open>The streaming engine: state, construction and refill\<close>

text \<open>
  The source is a text stream; \<open>stream\<close> holds what has not been read yet.
  \<open>read(n)\<close> returns the next \<open>n\<close> units, fewer at the end of the source, and
  everything that is left when \<open>n\<close> is negative.
\<close>

definition stream_read :: "pystr \<Rightarrow> int \<Rightarrow> pystr \<times> pystr" where
  "stream_read src n =
     (if n < 0 then (src, []) else (take (nat n) src, drop (nat n) src))"

text \<open>
  The fields of \<open>DecodeStream\<close>. \<open>max_bufsize\<close> is \<open>None\<close> for the default
  \<open>float('inf')\<close>. The decoder, the separator policy and the numeric types never
  change and are passed to the functions instead. \<open>cursor\<close> is \<open>self.pos\<close>, which
  is \<open>None\<close> until the generator starts under the white-space policy.
\<close>

record decode_stream =
  stream :: pystr
  bufsize :: int
  max_bufsize :: "int option"
  cursor :: "nat option"
  partial_doc :: pystr
  stream_offset :: int

definition DecodeStream_init ::
  "pystr \<Rightarrow> nat option \<Rightarrow> int \<Rightarrow> int option \<Rightarrow> int \<Rightarrow> error + decode_stream" where
  "DecodeStream_init src first_pos bsize max_bsize soffset =
     (if bsize < 1 then Inl (ValueError Expect_positive_bufsize)
      else Inr \<lparr>stream = src, bufsize = bsize, max_bufsize = max_bsize,
                cursor = first_pos, partial_doc = [], stream_offset = soffset\<rparr>)"

text \<open>\<open>_try_read\<close>: the error, or whether new data was read and the new state.\<close>

definition try_read :: "pystr \<Rightarrow> decode_stream \<Rightarrow> error + (bool \<times> decode_stream)" where
  "try_read remaining_buffer st =
     (let over = (case max_bufsize st of
                    None \<Rightarrow> False
                  | Some m \<Rightarrow> int (length remaining_buffer) + bufsize st > m);
          to_read = (if over then (case max_bufsize st of
                                     None \<Rightarrow> bufsize st
                                   | Some m \<Rightarrow> m - int (length remaining_buffer))
                     else bufsize st)
      in if over \<and> to_read \<le> 0 then Inl (ValueError Max_buffer_size_exceeded)
         else
           (let (new, rest) = stream_read (stream st) to_read
            in Inr (new \<noteq> [],
                    st\<lparr>stream := rest,
                       stream_offset := stream_offset st
                                 + (int (length (partial_doc st)) - int (length remaining_buffer)),
                       partial_doc := remaining_buffer @ new,
                       cursor := Some 0\<rparr>)))"

text \<open>\<open>_update_error\<close>: the error with the stream offset of the moment.\<close>

definition update_error :: "decode_stream \<Rightarrow> json_error \<Rightarrow> json_error" where
  "update_error st ex = ex\<lparr>ex_stream_offset := Some (stream_offset st)\<rparr>"

section \<open>The streaming engine: the generator\<close>

text \<open>
  The single-document parser is \<open>json.JSONDecoder.raw_decode\<close>, of the standard
  library: a parameter \<open>rd\<close>. Given the document and a start, it returns the value
  and the position after it, or fails with a message and a position; the
  \<open>JSONDecodeError\<close> it raises holds the document it was given.
  \<open>isinstance(obj, self.number_types)\<close> is the parameter \<open>is_number\<close>.
\<close>

type_synonym 'v raw_decode = "pystr \<Rightarrow> nat \<Rightarrow> (string \<times> nat) + ('v \<times> nat)"

type_synonym next_pos_func = "pystr \<Rightarrow> nat \<Rightarrow> error + nat option"

text \<open>
  What a generator does when it is run to its end: the values it yields, in order,
  and how it ends. \<open>Out_of_fuel\<close> is the model's bound on the iterations of a loop
  that the source does not bound.
\<close>

datatype ending = Finished | Raised error | Out_of_fuel

fun yield :: "'v \<Rightarrow> 'v list \<times> ending \<Rightarrow> 'v list \<times> ending" where
  "yield obj (objs, e) = (obj # objs, e)"

text \<open>\<open>DecodeStream.next_pos\<close>. Every turn of its loop follows a read that
  returned data, so the loop ends with the source.\<close>

function next_pos :: "next_pos_func \<Rightarrow> decode_stream \<Rightarrow> error + (bool \<times> decode_stream)" where
  "next_pos next_pos_helper st =
     (case cursor st of
        None \<Rightarrow> Inl (TypeError ''NoneType'')
      | Some p \<Rightarrow>
          (case next_pos_helper (partial_doc st) p of
             Inl e \<Rightarrow> Inl e
           | Inr None \<Rightarrow>
               (case try_read [] st of
                  Inl e \<Rightarrow> Inl e
                | Inr r \<Rightarrow> if fst r then next_pos next_pos_helper (snd r)
                           else Inr (False, snd r))
           | Inr (Some new_pos) \<Rightarrow> Inr (True, st\<lparr>cursor := Some new_pos\<rparr>)))"
  by pat_completeness auto

termination next_pos
proof (relation "measure (\<lambda>(h, st). length (stream st))")
  show "wf (measure (\<lambda>(h, st). length (stream st)))" by simp
next
  fix next_pos_helper :: next_pos_func and st :: decode_stream and p x x2 r
  assume "try_read [] st = Inr r" and "fst r"
  then have "length (stream (snd r)) < length (stream st)"
    by (auto simp: try_read_def Let_def stream_read_def split: if_splits option.splits)
  then show "((next_pos_helper, snd r), (next_pos_helper, st))
             \<in> measure (\<lambda>(h, st). length (stream st))"
    by simp
qed

declare next_pos.simps [simp del]

text \<open>
  The end of the body of the loop of \<open>_decode_stream_generator\<close>, after a parse
  that is kept: move the cursor, yield the value, look for the start of the next
  one, and go round the loop again (\<open>continue\<close>) or return.
\<close>

definition emit ::
  "(decode_stream \<Rightarrow> 'v list \<times> ending) \<Rightarrow> next_pos_func \<Rightarrow> 'v \<Rightarrow> nat
   \<Rightarrow> decode_stream \<Rightarrow> 'v list \<times> ending" where
  "emit continue helper obj new_pos st =
     yield obj
       (case next_pos helper (st\<lparr>cursor := Some new_pos\<rparr>) of
          Inl e \<Rightarrow> ([], Raised e)
        | Inr r \<Rightarrow> if fst r then continue (snd r) else ([], Finished))"

text \<open>
  The \<open>while True\<close> loop of \<open>_decode_stream_generator\<close>. Nothing in the source
  bounds its iterations (the parser may return the position it was given), so the
  model counts them: \<open>fuel\<close> is the number of parse attempts allowed.
\<close>

primrec decode_loop ::
  "nat \<Rightarrow> 'v raw_decode \<Rightarrow> ('v \<Rightarrow> bool) \<Rightarrow> (nat \<Rightarrow> bool) \<Rightarrow> next_pos_func
   \<Rightarrow> decode_stream \<Rightarrow> 'v list \<times> ending" where
  "decode_loop 0 rd is_number isdigit helper st = ([], Out_of_fuel)"
| "decode_loop (Suc fuel) rd is_number isdigit helper st =
     (case cursor st of
        None \<Rightarrow> ([], Raised (TypeError ''NoneType''))
      | Some p \<Rightarrow>
          (case rd (partial_doc st) p of
             Inl (m, epos) \<Rightarrow>
               (let ex = \<lparr>msg = m, doc = partial_doc st, pos = epos, ex_stream_offset = None\<rparr>
                in case match_error isdigit ex of
                     None \<Rightarrow> ([], Raised IndexError)
                   | Some True \<Rightarrow>
                       (case try_read (drop p (partial_doc st)) st of
                          Inl e \<Rightarrow> ([], Raised e)
                        | Inr r \<Rightarrow>
                            if fst r then decode_loop fuel rd is_number isdigit helper (snd r)
                            else ([], Raised (JSONDecodeError (update_error (snd r) ex))))
                   | Some False \<Rightarrow> ([], Raised (JSONDecodeError (update_error st ex))))
           | Inr (obj, new_pos) \<Rightarrow>
               if int new_pos \<ge> int (length (partial_doc st)) - 1 \<and> is_number obj then
                 (case try_read (drop p (partial_doc st)) st of
                    Inl e \<Rightarrow> ([], Raised e)
                  | Inr r \<Rightarrow>
                      if fst r then decode_loop fuel rd is_number isdigit helper (snd r)
                      else emit (decode_loop fuel rd is_number isdigit helper) helper
                             obj new_pos (snd r))
               else emit (decode_loop fuel rd is_number isdigit helper) helper obj new_pos st))"

text \<open>\<open>_decode_stream_generator\<close>: the start, then the loop.\<close>

definition decode_stream_generator ::
  "nat \<Rightarrow> 'v raw_decode \<Rightarrow> ('v \<Rightarrow> bool) \<Rightarrow> (nat \<Rightarrow> bool) \<Rightarrow> next_pos_func
   \<Rightarrow> decode_stream \<Rightarrow> 'v list \<times> ending" where
  "decode_stream_generator fuel rd is_number isdigit helper st =
     (case (case cursor st of
              None \<Rightarrow> next_pos helper (st\<lparr>cursor := Some 0\<rparr>)
            | Some p \<Rightarrow> try_read (partial_doc st) st) of
        Inl e \<Rightarrow> ([], Raised e)
      | Inr r \<Rightarrow>
          if fst r then decode_loop fuel rd is_number isdigit helper (snd r)
          else ([], Finished))"

text \<open>
  \<open>load\<close>: an error of the constructor is raised by the call itself (\<open>Inl\<close>);
  otherwise the iterator is returned, and the model gives its run. \<open>fp\<close> is a
  text stream, given by the text it holds; the wrapping of a byte stream in
  \<open>io.TextIOWrapper\<close> and the construction of the decoder (\<open>_parse_kw\<close>) are
  outside the model.
\<close>

definition load ::
  "nat \<Rightarrow> 'v raw_decode \<Rightarrow> ('v \<Rightarrow> bool) \<Rightarrow> (nat \<Rightarrow> bool) \<Rightarrow> pystr \<Rightarrow> pystr option
   \<Rightarrow> int \<Rightarrow> int option \<Rightarrow> int \<Rightarrow> error + ('v list \<times> ending)" where
  "load fuel rd is_number isdigit fp separator bsize max_bsize soffset =
     (case get_first_pos_and_next_pos_func separator of
        (helper, first_pos) \<Rightarrow>
          (case DecodeStream_init fp first_pos bsize max_bsize soffset of
             Inl e \<Rightarrow> Inl e
           | Inr ds \<Rightarrow> Inr (decode_stream_generator fuel rd is_number isdigit helper ds)))"

section \<open>The in-memory variant\<close>

text \<open>The loop of \<open>decode_stacked\<close>, bounded like the loop of the generator.\<close>

primrec decode_stacked_loop ::
  "nat \<Rightarrow> 'v raw_decode \<Rightarrow> next_pos_func \<Rightarrow> pystr \<Rightarrow> nat \<Rightarrow> 'v list \<times> ending" where
  "decode_stacked_loop 0 rd helper document p = ([], Out_of_fuel)"
| "decode_stacked_loop (Suc fuel) rd helper document p =
     (case rd document p of
        Inl (m, epos) \<Rightarrow>
          ([], Raised (JSONDecodeError
                 \<lparr>msg = m, doc = document, pos = epos, ex_stream_offset = None\<rparr>))
      | Inr (obj, p') \<Rightarrow>
          yield obj
            (case helper document p' of
               Inl e \<Rightarrow> ([], Raised e)
             | Inr None \<Rightarrow> ([], Finished)
             | Inr (Some p'') \<Rightarrow> decode_stacked_loop fuel rd helper document p''))"

definition decode_stacked ::
  "nat \<Rightarrow> 'v raw_decode \<Rightarrow> next_pos_func \<Rightarrow> pystr \<Rightarrow> nat option \<Rightarrow> 'v list \<times> ending" where
  "decode_stacked fuel rd helper document first_pos =
     (if document = [] then ([], Finished)
      else
        (case first_pos of
           None \<Rightarrow>
             (case helper document 0 of
                Inl e \<Rightarrow> ([], Raised e)
              | Inr None \<Rightarrow> ([], Finished)
              | Inr (Some p) \<Rightarrow> decode_stacked_loop fuel rd helper document p)
         | Some p \<Rightarrow> decode_stacked_loop fuel rd helper document p))"

text \<open>
  The argument of \<open>loads\<close>: a \<open>str\<close>, \<open>bytes\<close> or \<open>bytearray\<close>, or an object of
  another class, given by the name of the class. \<open>bytes.decode('utf8')\<close> is the
  codec of the language: a parameter \<open>utf8\<close>, which may fail. The parameter
  \<open>pos\<close> of \<open>loads\<close> is overwritten before it is read and is left out.
\<close>

datatype py_object = Str pystr | Bytes "nat list" | Bytearray "nat list" | Other string

definition BOM :: nat where
  "BOM = 65279"

definition loads ::
  "nat \<Rightarrow> 'v raw_decode \<Rightarrow> (nat list \<Rightarrow> error + pystr) \<Rightarrow> py_object \<Rightarrow> pystr option
   \<Rightarrow> error + ('v list \<times> ending)" where
  "loads fuel rd utf8 s separator =
     (case (case s of
              Str t \<Rightarrow>
                if startswith_at t [BOM] 0
                then Inl (JSONDecodeError
                       \<lparr>msg = ''Unexpected UTF-8 BOM (decode using utf-8-sig)'', doc = t,
                        pos = 0, ex_stream_offset = None\<rparr>)
                else Inr t
            | Bytes b \<Rightarrow> utf8 b
            | Bytearray b \<Rightarrow> utf8 b
            | Other class_name \<Rightarrow> Inl (TypeError class_name)) of
        Inl e \<Rightarrow> Inl e
      | Inr t \<Rightarrow>
          (case get_first_pos_and_next_pos_func separator of
             (helper, first_pos) \<Rightarrow> Inr (decode_stacked fuel rd helper t first_pos)))"

section \<open>A parser to run the engine on\<close>

text \<open>
  The theorems about all parsers take \<open>rd\<close> as a parameter. To run the two loaders
  on concrete inputs, the scanner of the standard library (\<open>json.scanner\<close>,
  \<open>json.decoder.JSONArray\<close>) is written out for the part of the grammar without
  strings and objects: the keywords, the numbers of \<open>NUMBER_RE\<close> and arrays.
  A float keeps the text of its literal. \<open>StopIteration(idx)\<close> is given as the
  error \<open>Expecting value\<close> at \<open>idx\<close>, which both callers of \<open>scan_once\<close> make
  of it. The first argument bounds the calls (the recursion limit of the
  interpreter); \<open>json_raw_decode\<close> gives more than a document can use.
\<close>

datatype jvalue =
  JNull | JBool bool | JInt int | JFloat pystr | JConstant pystr | JArray "jvalue list"

definition is_ascii_digit :: "nat \<Rightarrow> bool" where
  "is_ascii_digit c = (48 \<le> c \<and> c \<le> 57)"

definition json_ws :: "nat \<Rightarrow> bool" where
  "json_ws c = (c = 32 \<or> c = 9 \<or> c = 10 \<or> c = 13)"

definition ws_end :: "pystr \<Rightarrow> nat \<Rightarrow> nat" where
  "ws_end s p = (let q = min p (length s) in q + length (takeWhile json_ws (drop q s)))"

definition digits_value :: "pystr \<Rightarrow> int" where
  "digits_value ds = foldl (\<lambda>a d. 10 * a + (int d - 48)) 0 ds"

definition match_number :: "pystr \<Rightarrow> nat \<Rightarrow> (pystr \<times> pystr \<times> pystr \<times> nat) option" where
  "match_number s idx =
     (let r0 = drop idx s;
          sign = (if take 1 r0 = ustr ''-'' then ustr ''-'' else []);
          r1 = drop (length sign) r0;
          ds = takeWhile is_ascii_digit r1;
          int_digits = (if take 1 ds = ustr ''0'' then ustr ''0'' else ds)
      in if int_digits = [] then None
         else
           (let r2 = drop (length int_digits) r1;
                fd = takeWhile is_ascii_digit (drop 1 r2);
                frac = (if take 1 r2 = ustr ''.'' \<and> fd \<noteq> [] then take 1 r2 @ fd else []);
                r3 = drop (length frac) r2;
                r4 = drop 1 r3;
                esign = (if take 1 r4 = ustr ''-'' \<or> take 1 r4 = ustr ''+'' then take 1 r4 else []);
                ed = takeWhile is_ascii_digit (drop (length esign) r4);
                exp = (if (take 1 r3 = ustr ''e'' \<or> take 1 r3 = ustr ''E'') \<and> ed \<noteq> []
                       then take 1 r3 @ esign @ ed else [])
            in Some (sign @ int_digits, frac, exp,
                     idx + length sign + length int_digits + length frac + length exp)))"

definition nextchar_ws :: "pystr \<Rightarrow> nat \<Rightarrow> nat \<times> pystr" where
  "nextchar_ws s e =
     (let nextchar = take 1 (drop e s)
      in if nextchar = [] \<or> json_ws (hd nextchar)
         then (let e' = ws_end s (e + 1) in (e', take 1 (drop e' s)))
         else (e, nextchar))"

definition after_comma :: "pystr \<Rightarrow> nat \<Rightarrow> nat" where
  "after_comma s e =
     (if e < length s \<and> json_ws (s ! e) then
        (if e + 1 < length s \<and> json_ws (s ! (e + 1)) then ws_end s (e + 2) else e + 1)
      else e)"

fun scan_once :: "nat \<Rightarrow> pystr \<Rightarrow> nat \<Rightarrow> (string \<times> nat) + (jvalue \<times> nat)"
and array_items :: "nat \<Rightarrow> pystr \<Rightarrow> nat \<Rightarrow> jvalue list \<Rightarrow> (string \<times> nat) + (jvalue \<times> nat)" where
  "scan_once 0 s idx = Inl (''RecursionError'', idx)"
| "scan_once (Suc n) s idx =
     (if length s \<le> idx then Inl (''Expecting value'', idx)
      else
        (let nextchar = s ! idx in
         if nextchar = of_char CHR ''['' then
           (case nextchar_ws s (idx + 1) of
              (e, c) \<Rightarrow> if c = ustr '']'' then Inr (JArray [], e + 1)
                        else array_items n s e [])
         else if nextchar = of_char CHR ''n'' \<and> take 4 (drop idx s) = ustr ''null''
           then Inr (JNull, idx + 4)
         else if nextchar = of_char CHR ''t'' \<and> take 4 (drop idx s) = ustr ''true''
           then Inr (JBool True, idx + 4)
         else if nextchar = of_char CHR ''f'' \<and> take 5 (drop idx s) = ustr ''false''
           then Inr (JBool False, idx + 5)
         else
           (case match_number s idx of
              Some (integer, frac, exp, e) \<Rightarrow>
                if frac \<noteq> [] \<or> exp \<noteq> [] then Inr (JFloat (integer @ frac @ exp), e)
                else Inr (JInt (if take 1 integer = ustr ''-''
                                then - digits_value (drop 1 integer)
                                else digits_value integer), e)
            | None \<Rightarrow>
                if nextchar = of_char CHR ''N'' \<and> take 3 (drop idx s) = ustr ''NaN''
                  then Inr (JConstant (ustr ''NaN''), idx + 3)
                else if nextchar = of_char CHR ''I'' \<and> take 8 (drop idx s) = ustr ''Infinity''
                  then Inr (JConstant (ustr ''Infinity''), idx + 8)
                else if nextchar = of_char CHR ''-'' \<and> take 9 (drop idx s) = ustr ''-Infinity''
                  then Inr (JConstant (ustr ''-Infinity''), idx + 9)
                else Inl (''Expecting value'', idx))))"
| "array_items 0 s e values = Inl (''RecursionError'', e)"
| "array_items (Suc n) s e values =
     (case scan_once n s e of
        Inl err \<Rightarrow> Inl err
      | Inr (v, e1) \<Rightarrow>
          (case nextchar_ws s e1 of
             (e2, c) \<Rightarrow>
               if c = ustr '']'' then Inr (JArray (values @ [v]), e2 + 1)
               else if c \<noteq> ustr '','' then Inl (''Expecting ',' delimiter'', e2)
               else array_items n s (after_comma s (e2 + 1)) (values @ [v])))"

definition json_raw_decode :: "jvalue raw_decode" where
  "json_raw_decode s idx = scan_once (Suc (Suc (length s + length s))) s idx"

text \<open>
  The default \<open>number_types\<close> are \<open>int\<close> and \<open>float\<close>: \<open>bool\<close> is a subclass of
  \<open>int\<close>, and the constants \<open>NaN\<close>, \<open>Infinity\<close> and \<open>-Infinity\<close> are floats.
\<close>

fun default_number_types :: "jvalue \<Rightarrow> bool" where
  "default_number_types (JInt i) = True"
| "default_number_types (JFloat t) = True"
| "default_number_types (JConstant t) = True"
| "default_number_types (JBool b) = True"
| "default_number_types JNull = False"
| "default_number_types (JArray vs) = False"

section \<open>The retry classifier as the specification words it\<close>

text \<open>
  The kinds of decode error that the specification names, read off the message as
  the pattern of \<open>_match_error\<close> does, and the retriable errors in the words of
  the specification: for the kind expecting-a-value, a remainder that is a strict
  prefix of a keyword.
\<close>

definition kind_unterminated_string :: "string \<Rightarrow> bool" where
  "kind_unterminated_string m = prefix ''Unterminated string starting at'' m"

definition kind_expecting_value :: "string \<Rightarrow> bool" where
  "kind_expecting_value m = prefix ''Expecting value'' m"

definition kind_expecting_property_name :: "string \<Rightarrow> bool" where
  "kind_expecting_property_name m =
     prefix ''Expecting property name enclosed in double quotes'' m"

definition kind_expecting_delimiter :: "string \<Rightarrow> bool" where
  "kind_expecting_delimiter m =
     (prefix ''Expecting ',' delimiter'' m \<or> prefix ''Expecting ':' delimiter'' m)"

definition retriable_as_specified :: "(nat \<Rightarrow> bool) \<Rightarrow> json_error \<Rightarrow> bool" where
  "retriable_as_specified isdigit ex =
     (kind_unterminated_string (msg ex)
      \<or> ((kind_expecting_value (msg ex) \<or> kind_expecting_property_name (msg ex)
           \<or> kind_expecting_delimiter (msg ex))
          \<and> (pos ex = length (doc ex)
               \<or> (pos ex + 1 = length (doc ex) \<and> doc ex ! pos ex = of_char CHR ''.''
                   \<and> 0 < pos ex \<and> isdigit (doc ex ! (pos ex - 1)))
               \<or> (kind_expecting_value (msg ex)
                   \<and> length (drop (pos ex) (doc ex)) \<le> MAX_KEYWORD_LEN
                   \<and> (\<exists>kw \<in> set KEYWORDS. strict_prefix (drop (pos ex) (doc ex)) kw)))))"

section \<open>The separator policy and the constructor\<close>

lemma startswith_at_iff:
  "startswith_at document separator p
   \<longleftrightarrow> (\<exists>pre post. document = pre @ separator @ post \<and> length pre = p)"
proof
  assume "startswith_at document separator p"
  then obtain post where le: "p \<le> length document" and d: "drop p document = separator @ post"
    by (auto simp: startswith_at_def prefix_def)
  have "document = take p document @ separator @ post"
    using d by (metis append_take_drop_id)
  moreover have "length (take p document) = p" using le by simp
  ultimately show "\<exists>pre post. document = pre @ separator @ post \<and> length pre = p" by blast
next
  assume "\<exists>pre post. document = pre @ separator @ post \<and> length pre = p"
  then show "startswith_at document separator p"
    by (auto simp: startswith_at_def)
qed

text \<open>
  Claim C6. The literal separator policy is a function of the separator, the document
  and the position alone: it returns the position after the separator when the text
  of the separator stands in the document exactly at the position; otherwise
  \<open>None\<close> when the position is the length of the document; otherwise it raises
  the delimiter error.
\<close>

theorem separator_policy_cases:
  "next_position_by_separator separator document p =
     (if (\<exists>pre post. document = pre @ separator @ post \<and> length pre = p)
      then Inr (Some (p + length separator))
      else if p = length document then Inr None
      else Inl (ValueError (Expected_delimiter separator)))"
  unfolding next_position_by_separator_def startswith_at_iff by simp

theorem separator_policy_cases_witness:
  "next_position_by_separator (ustr '','') (ustr ''[],[]'') 2 = Inr (Some 3)
   \<and> next_position_by_separator (ustr '','') (ustr ''[],[]'') 5 = Inr None
   \<and> next_position_by_separator (ustr ''/'') (ustr ''[],[]'') 2
       = Inl (ValueError (Expected_delimiter (ustr ''/'')))"
proof -
  have a: "\<exists>pre post. ustr ''[],[]'' = pre @ ustr '','' @ post \<and> length pre = 2"
    by (rule exI [of _ "ustr ''[]''"], rule exI [of _ "ustr ''[]''"]) (simp add: ustr_def)
  have b: "\<not> (\<exists>pre post. ustr ''[],[]'' = pre @ ustr '','' @ post \<and> length pre = 5)"
    by (auto simp: ustr_def append_eq_Cons_conv Cons_eq_append_conv)
  have c: "\<not> (\<exists>pre post. ustr ''[],[]'' = pre @ ustr ''/'' @ post \<and> length pre = 2)"
    unfolding startswith_at_iff [symmetric] by (simp add: startswith_at_def ustr_def)
  show ?thesis
    using separator_policy_cases [of "ustr '',''" "ustr ''[],[]''" 2]
          separator_policy_cases [of "ustr '',''" "ustr ''[],[]''" 5]
          separator_policy_cases [of "ustr ''/''" "ustr ''[],[]''" 2] a b c
    by (simp add: ustr_def)
qed

text \<open>
  Claim C10. With a read quantum below one the constructor, and so \<open>load\<close>, raises
  \<open>ValueError\<close> when it is called; with a quantum of at least one it succeeds, and
  the source it holds is the source it was given, with nothing read into the buffer.
\<close>

theorem init_bufsize:
  "(bsize < 1 \<longrightarrow>
      DecodeStream_init src first_pos bsize max_bsize soffset
        = Inl (ValueError Expect_positive_bufsize)
      \<and> load fuel rd is_number isdigit src separator bsize max_bsize soffset
        = Inl (ValueError Expect_positive_bufsize))
   \<and> (1 \<le> bsize \<longrightarrow>
        (\<exists>ds. DecodeStream_init src first_pos bsize max_bsize soffset = Inr ds
              \<and> stream ds = src \<and> partial_doc ds = [] \<and> stream_offset ds = soffset
              \<and> cursor ds = first_pos \<and> bufsize ds = bsize \<and> max_bufsize ds = max_bsize))"
  by (simp add: DecodeStream_init_def load_def split: prod.splits)

theorem init_bufsize_witness:
  "DecodeStream_init (ustr ''[1]'') None 0 None 0 = Inl (ValueError Expect_positive_bufsize)
   \<and> (\<exists>ds. DecodeStream_init (ustr ''[1]'') None 1 None 0 = Inr ds \<and> stream ds = ustr ''[1]'')"
  using init_bufsize [of 0 "ustr ''[1]''" None None 0 0 "\<lambda>s i. Inl ([], 0)" "\<lambda>v. False" "\<lambda>c. False" None]
        init_bufsize [of 1 "ustr ''[1]''" None None 0 0 "\<lambda>s i. Inl ([], 0)" "\<lambda>v. False" "\<lambda>c. False" None]
  by auto

section \<open>The retry classifier, the refill and the checks of the input\<close>

lemma MAX_KEYWORD_LEN_eq: "MAX_KEYWORD_LEN = 9"
  by (simp add: MAX_KEYWORD_LEN_def KEYWORDS_def ustr_def)

lemma prefix_Expecting:
  "kind_expecting_value m \<or> kind_expecting_property_name m \<or> kind_expecting_delimiter m
   \<Longrightarrow> prefix ''Expecting'' m"
  by (auto simp: kind_expecting_value_def kind_expecting_property_name_def
        kind_expecting_delimiter_def prefix_def)

lemma unterminated_not_Expecting:
  "kind_unterminated_string m \<Longrightarrow> \<not> prefix ''Expecting'' m"
  by (auto simp: kind_unterminated_string_def prefix_def)

lemma error_message_pattern_kinds:
  "error_message_pattern m \<longleftrightarrow>
     kind_unterminated_string m \<or> kind_expecting_value m
     \<or> kind_expecting_property_name m \<or> kind_expecting_delimiter m"
  by (auto simp: error_message_pattern_def kind_unterminated_string_def
        kind_expecting_value_def kind_expecting_property_name_def kind_expecting_delimiter_def)

lemma float_split_eq:
  assumes "\<not> isdigit (of_char CHR ''.'')"
  shows "float_split isdigit ex =
     Some (pos ex + 1 = length (doc ex) \<and> doc ex ! pos ex = of_char CHR ''.''
           \<and> 0 < pos ex \<and> isdigit (doc ex ! (pos ex - 1)))"
proof (cases "int (pos ex) = int (length (doc ex)) - 1")
  case False
  then have "pos ex + 1 \<noteq> length (doc ex)" by auto
  with False show ?thesis by (simp add: float_split_def)
next
  case True
  then have len: "pos ex + 1 = length (doc ex)" by linarith
  then have here: "py_index (doc ex) (int (pos ex)) = Some (doc ex ! pos ex)"
    by (simp add: py_index_def Let_def)
  show ?thesis
  proof (cases "pos ex")
    case 0
    with len have "py_index (doc ex) (int (pos ex) - 1) = Some (doc ex ! 0)"
      by (cases "doc ex") (simp_all add: py_index_def Let_def)
    with True here 0 assms show ?thesis
      by (auto simp: float_split_def)
  next
    case (Suc k)
    with len have "py_index (doc ex) (int (pos ex) - 1) = Some (doc ex ! k)"
      by (simp add: py_index_def Let_def)
    with True here Suc len show ?thesis
      by (auto simp: float_split_def)
  qed
qed

lemma keyword_split_eq:
  "keyword_split ex =
     (kind_expecting_value (msg ex) \<and> length (doc ex) < pos ex + 9
      \<and> (\<exists>kw \<in> set KEYWORDS. prefix (drop (pos ex) (doc ex)) kw))"
  by (auto simp: keyword_split_def kind_expecting_value_def MAX_KEYWORD_LEN_eq)

lemma match_error_prefix_form:
  assumes "\<not> isdigit (of_char CHR ''.'')"
  shows "match_error isdigit ex =
     Some (kind_unterminated_string (msg ex)
           \<or> ((kind_expecting_value (msg ex) \<or> kind_expecting_property_name (msg ex)
                \<or> kind_expecting_delimiter (msg ex))
               \<and> (pos ex = length (doc ex)
                    \<or> (pos ex + 1 = length (doc ex) \<and> doc ex ! pos ex = of_char CHR ''.''
                        \<and> 0 < pos ex \<and> isdigit (doc ex ! (pos ex - 1)))
                    \<or> (kind_expecting_value (msg ex) \<and> length (doc ex) < pos ex + 9
                        \<and> (\<exists>kw \<in> set KEYWORDS. prefix (drop (pos ex) (doc ex)) kw)))))"
proof (cases "kind_expecting_value (msg ex) \<or> kind_expecting_property_name (msg ex)
              \<or> kind_expecting_delimiter (msg ex)")
  case True
  then have "prefix ''Expecting'' (msg ex)" by (rule prefix_Expecting)
  moreover from this have "\<not> kind_unterminated_string (msg ex)"
    using unterminated_not_Expecting by blast
  moreover have "error_message_pattern (msg ex)"
    using True by (simp add: error_message_pattern_kinds)
  ultimately show ?thesis
    using True assms
    by (auto simp: match_error_def float_split_eq keyword_split_eq split: bool.splits)
next
  case False
  show ?thesis
  proof (cases "kind_unterminated_string (msg ex)")
    case True
    with False show ?thesis
      by (simp add: match_error_def error_message_pattern_kinds unterminated_not_Expecting)
  next
    case nu: False
    with False have "\<not> error_message_pattern (msg ex)"
      by (simp add: error_message_pattern_kinds)
    with False nu show ?thesis by (simp add: match_error_def)
  qed
qed

text \<open>
  The parser does not fail with expecting-a-value where a whole keyword stands: it
  accepts every keyword.
\<close>

lemma KEYWORDS_nonempty: "kw \<in> set KEYWORDS \<Longrightarrow> kw \<noteq> []"
  by (auto simp: KEYWORDS_def ustr_def)

lemma scan_once_accepts_keyword:
  assumes "drop idx s \<in> set KEYWORDS"
  shows "\<exists>r. scan_once (Suc n) s idx = Inr r"
proof -
  from assms have ne: "drop idx s \<noteq> []" by (rule KEYWORDS_nonempty)
  then have lt: "idx < length s" by simp
  then have nth: "s ! idx = hd (drop idx s)" by (simp add: hd_drop_conv_nth)
  from assms consider "drop idx s = ustr ''null''" | "drop idx s = ustr ''true''"
    | "drop idx s = ustr ''false''" | "drop idx s = ustr ''NaN''"
    | "drop idx s = ustr ''Infinity''" | "drop idx s = ustr ''-Infinity''"
    by (auto simp: KEYWORDS_def)
  then show ?thesis
  proof cases
    case 1
    with lt nth show ?thesis by (simp add: ustr_def)
  next
    case 2
    with lt nth show ?thesis by (simp add: ustr_def)
  next
    case 3
    with lt nth show ?thesis by (simp add: ustr_def)
  next
    case 4
    with lt nth show ?thesis
      by (simp add: ustr_def match_number_def is_ascii_digit_def Let_def)
  next
    case 5
    with lt nth show ?thesis
      by (simp add: ustr_def match_number_def is_ascii_digit_def Let_def)
  next
    case 6
    with lt nth show ?thesis
      by (simp add: ustr_def match_number_def is_ascii_digit_def Let_def)
  qed
qed

lemma scan_once_Suc_Inl:
  assumes "scan_once (Suc n) s idx = Inl (m, e)"
  shows "(m = ''Expecting value'' \<and> e = idx)
         \<or> (\<exists>e'. array_items n s e' [] = Inl (m, e))"
  using assms
  by (auto simp: Let_def split: if_splits prod.splits option.splits)

lemma array_items_Suc_Inl:
  assumes "array_items (Suc n) s e0 vs = Inl (m, e)"
  shows "scan_once n s e0 = Inl (m, e)
         \<or> m = ''Expecting ',' delimiter''
         \<or> (\<exists>e' vs'. array_items n s e' vs' = Inl (m, e))"
  using assms
  by (auto split: sum.splits prod.splits if_splits)

lemma scan_once_not_at_keyword:
  "scan_once n s idx = Inl (m, e) \<Longrightarrow> kind_expecting_value m
     \<Longrightarrow> drop e s \<notin> set KEYWORDS"
  and array_items_not_at_keyword:
  "array_items n s idx vs = Inl (m, e) \<Longrightarrow> kind_expecting_value m
     \<Longrightarrow> drop e s \<notin> set KEYWORDS"
proof (induction n arbitrary: idx vs)
  case 0
  {
    case 1
    then show ?case by (auto simp: kind_expecting_value_def)
  next
    case 2
    then show ?case by (auto simp: kind_expecting_value_def)
  }
next
  case (Suc n)
  {
    case 1
    from scan_once_Suc_Inl [OF "1"(1)] show ?case
    proof
      assume a: "m = ''Expecting value'' \<and> e = idx"
      show ?thesis
      proof
        assume "drop e s \<in> set KEYWORDS"
        with a scan_once_accepts_keyword [of idx s n] "1"(1) show False by auto
      qed
    next
      assume "\<exists>e'. array_items n s e' [] = Inl (m, e)"
      with Suc(2) "1"(2) show ?thesis by blast
    qed
  next
    case 2
    from array_items_Suc_Inl [OF "2"(1)] "2"(2) Suc show ?case
      by (auto simp: kind_expecting_value_def)
  }
qed

lemma json_raw_decode_not_at_keyword:
  "json_raw_decode s idx = Inl (m, e) \<Longrightarrow> kind_expecting_value m
     \<Longrightarrow> drop e s \<notin> set KEYWORDS"
  unfolding json_raw_decode_def by (rule scan_once_not_at_keyword)

lemma KEYWORDS_length: "kw \<in> set KEYWORDS \<Longrightarrow> length kw \<le> 9"
  by (auto simp: KEYWORDS_def ustr_def)

lemma keyword_prefix_strict:
  assumes "drop p d \<notin> set KEYWORDS"
  shows "(length d < p + 9 \<and> (\<exists>kw \<in> set KEYWORDS. prefix (drop p d) kw))
         \<longleftrightarrow> (length (drop p d) \<le> MAX_KEYWORD_LEN
              \<and> (\<exists>kw \<in> set KEYWORDS. strict_prefix (drop p d) kw))"
proof
  assume l: "length d < p + 9 \<and> (\<exists>kw \<in> set KEYWORDS. prefix (drop p d) kw)"
  then obtain kw where kw: "kw \<in> set KEYWORDS" "prefix (drop p d) kw" by blast
  with assms have "drop p d \<noteq> kw" by auto
  with kw have "strict_prefix (drop p d) kw" by (simp add: strict_prefix_def)
  with kw(1) l show "length (drop p d) \<le> MAX_KEYWORD_LEN
              \<and> (\<exists>kw \<in> set KEYWORDS. strict_prefix (drop p d) kw)"
    by (auto simp: MAX_KEYWORD_LEN_eq)
next
  assume r: "length (drop p d) \<le> MAX_KEYWORD_LEN
              \<and> (\<exists>kw \<in> set KEYWORDS. strict_prefix (drop p d) kw)"
  then obtain kw where kw: "kw \<in> set KEYWORDS" "strict_prefix (drop p d) kw" by blast
  then have "length (drop p d) < length kw"
    by (metis prefix_length_less)
  with KEYWORDS_length [OF kw(1)] have "length d < p + 9" by simp
  with kw show "length d < p + 9 \<and> (\<exists>kw \<in> set KEYWORDS. prefix (drop p d) kw)"
    by (auto simp: strict_prefix_def)
qed

lemma match_error_strict_form:
  assumes "\<not> isdigit (of_char CHR ''.'')"
    and "kind_expecting_value (msg ex) \<Longrightarrow> drop (pos ex) (doc ex) \<notin> set KEYWORDS"
  shows "match_error isdigit ex = Some (retriable_as_specified isdigit ex)"
proof (cases "kind_expecting_value (msg ex)")
  case True
  from keyword_prefix_strict [OF assms(2) [OF True]] show ?thesis
    unfolding match_error_prefix_form [where isdigit = isdigit, OF assms(1)] retriable_as_specified_def
    by simp
next
  case False
  then show ?thesis
    unfolding match_error_prefix_form [where isdigit = isdigit, OF assms(1)] retriable_as_specified_def
    by simp
qed

lemma json_raw_decode_errors_classified:
  assumes "json_raw_decode s idx = Inl (m, e)" and "\<not> isdigit (of_char CHR ''.'')"
  shows "match_error isdigit \<lparr>msg = m, doc = s, pos = e, ex_stream_offset = None\<rparr>
         = Some (retriable_as_specified isdigit
                   \<lparr>msg = m, doc = s, pos = e, ex_stream_offset = None\<rparr>)"
  using json_raw_decode_not_at_keyword [OF assms(1)]
  by (intro match_error_strict_form [where isdigit = isdigit, OF assms(2)]) simp

text \<open>
  Claim C2. For a decode error that a parser raises (it raises none of the kind
  expecting-a-value where a whole keyword stands, which it accepts), and the point
  being no digit, \<open>_match_error\<close> returns true precisely when the kind is
  unterminated-string, or the kind is one of the three expecting kinds and the
  position is the end of the buffered document, or it is one unit before the end
  with a decimal point there and a digit before it, or the kind is expecting-a-value
  and the remainder is a strict prefix of a keyword. An error it returns false for
  ends the generator at once, enriched, with no read.
\<close>

theorem match_error_classifies:
  assumes "\<not> isdigit (of_char CHR ''.'')"
    and "kind_expecting_value (msg ex) \<Longrightarrow> drop (pos ex) (doc ex) \<notin> set KEYWORDS"
  shows "match_error isdigit ex = Some (retriable_as_specified isdigit ex)
     \<and> (cursor st = Some p \<and> rd (partial_doc st) p = Inl (m, e)
          \<and> match_error isdigit
               \<lparr>msg = m, doc = partial_doc st, pos = e, ex_stream_offset = None\<rparr> = Some False
         \<longrightarrow> decode_loop (Suc fuel) rd is_number isdigit helper st
               = ([], Raised (JSONDecodeError
                    \<lparr>msg = m, doc = partial_doc st, pos = e,
                     ex_stream_offset = Some (stream_offset st)\<rparr>)))"
  using match_error_strict_form [where isdigit = isdigit and ex = ex, OF assms]
  by (simp add: update_error_def)

theorem match_error_classifies_witness:
  "match_error is_ascii_digit
     \<lparr>msg = ''Expecting value'', doc = ustr ''[nul'', pos = 1, ex_stream_offset = None\<rparr>
     = Some True
   \<and> decode_loop (Suc 0) json_raw_decode default_number_types is_ascii_digit
        next_position_by_non_whitespace
        \<lparr>stream = [], bufsize = 1, max_bufsize = None, cursor = Some 0,
         partial_doc = ustr ''x'', stream_offset = 7\<rparr>
       = ([], Raised (JSONDecodeError
            \<lparr>msg = ''Expecting value'', doc = ustr ''x'', pos = 0,
             ex_stream_offset = Some 7\<rparr>))"
proof -
  let ?st = "\<lparr>stream = [], bufsize = 1, max_bufsize = None, cursor = Some 0,
              partial_doc = ustr ''x'', stream_offset = 7\<rparr>"
  let ?ex = "\<lparr>msg = ''Expecting value'', doc = ustr ''[nul'', pos = 1,
               ex_stream_offset = None\<rparr>"
  have d: "\<not> is_ascii_digit (of_char CHR ''.'')"
    by (simp add: is_ascii_digit_def)
  have k: "drop (pos ?ex) (doc ?ex) \<notin> set KEYWORDS"
    by (simp add: KEYWORDS_def ustr_def)
  have r: "json_raw_decode (partial_doc ?st) 0 = Inl (''Expecting value'', 0)"
    by (simp add: json_raw_decode_def match_number_def is_ascii_digit_def Let_def ustr_def)
  have m: "match_error is_ascii_digit
             \<lparr>msg = ''Expecting value'', doc = partial_doc ?st, pos = 0,
              ex_stream_offset = None\<rparr> = Some False"
    by (simp add: match_error_def float_split_def keyword_split_def error_message_pattern_def
          py_index_def KEYWORDS_def MAX_KEYWORD_LEN_eq ustr_def)
  have s: "retriable_as_specified is_ascii_digit ?ex"
    by (simp add: retriable_as_specified_def kind_expecting_value_def KEYWORDS_def
          MAX_KEYWORD_LEN_eq ustr_def)
  show ?thesis
    using match_error_classifies [where isdigit = is_ascii_digit and ex = ?ex
        and st = ?st and p = 0 and rd = json_raw_decode and m = "''Expecting value''"
        and e = 0 and fuel = 0 and is_number = default_number_types
        and helper = next_position_by_non_whitespace, OF d k] r m s
    by simp
qed

text \<open>
  Claim C4. A refill that returns leaves a buffer no longer than \<open>max_bufsize\<close>;
  when the tail and the quantum together exceed the bound, exactly what fills the
  bound is requested; when the tail alone fills the bound, the refill raises the
  buffer-size error, and the generator ends with that error from each place that
  asked for the refill.
\<close>

theorem try_read_bounded:
  "(1 \<le> bufsize st \<and> max_bufsize st = Some m \<and> try_read rb st = Inr (b, st')
      \<longrightarrow> int (length (partial_doc st')) \<le> m)
   \<and> (max_bufsize st = Some m \<and> m < int (length rb) + bufsize st \<and> int (length rb) < m
      \<longrightarrow> try_read rb st =
            Inr (take (nat (m - int (length rb))) (stream st) \<noteq> [],
                 st\<lparr>stream := drop (nat (m - int (length rb))) (stream st),
                    stream_offset := stream_offset st
                                     + (int (length (partial_doc st)) - int (length rb)),
                    partial_doc := rb @ take (nat (m - int (length rb))) (stream st),
                    cursor := Some 0\<rparr>))
   \<and> (max_bufsize st = Some m \<and> m < int (length rb) + bufsize st \<and> m \<le> int (length rb)
      \<longrightarrow> try_read rb st = Inl (ValueError Max_buffer_size_exceeded))
   \<and> (cursor st = Some p \<and> rd (partial_doc st) p = Inl (em, e)
       \<and> match_error isdigit
            \<lparr>msg = em, doc = partial_doc st, pos = e, ex_stream_offset = None\<rparr> = Some True
       \<and> try_read (drop p (partial_doc st)) st = Inl err
      \<longrightarrow> decode_loop (Suc fuel) rd is_number isdigit helper st = ([], Raised err))
   \<and> (cursor st = Some p \<and> rd (partial_doc st) p = Inr (obj, new_pos)
       \<and> int (length (partial_doc st)) - 1 \<le> int new_pos \<and> is_number obj
       \<and> try_read (drop p (partial_doc st)) st = Inl err
      \<longrightarrow> decode_loop (Suc fuel) rd is_number isdigit helper st = ([], Raised err))
   \<and> (cursor st = Some p \<and> helper (partial_doc st) p = Inr None
       \<and> try_read [] st = Inl err
      \<longrightarrow> next_pos helper st = Inl err)"
proof (intro conjI impI)
  assume "1 \<le> bufsize st \<and> max_bufsize st = Some m \<and> try_read rb st = Inr (b, st')"
  then show "int (length (partial_doc st')) \<le> m"
    by (auto simp: try_read_def Let_def stream_read_def split: if_splits)
next
  assume "max_bufsize st = Some m \<and> m < int (length rb) + bufsize st \<and> int (length rb) < m"
  then show "try_read rb st =
            Inr (take (nat (m - int (length rb))) (stream st) \<noteq> [],
                 st\<lparr>stream := drop (nat (m - int (length rb))) (stream st),
                    stream_offset := stream_offset st
                                     + (int (length (partial_doc st)) - int (length rb)),
                    partial_doc := rb @ take (nat (m - int (length rb))) (stream st),
                    cursor := Some 0\<rparr>)"
    by (simp add: try_read_def Let_def stream_read_def)
next
  assume "max_bufsize st = Some m \<and> m < int (length rb) + bufsize st \<and> m \<le> int (length rb)"
  then show "try_read rb st = Inl (ValueError Max_buffer_size_exceeded)"
    by (simp add: try_read_def Let_def)
next
  assume "cursor st = Some p \<and> rd (partial_doc st) p = Inl (em, e)
       \<and> match_error isdigit
            \<lparr>msg = em, doc = partial_doc st, pos = e, ex_stream_offset = None\<rparr> = Some True
       \<and> try_read (drop p (partial_doc st)) st = Inl err"
  then show "decode_loop (Suc fuel) rd is_number isdigit helper st = ([], Raised err)"
    by simp
next
  assume "cursor st = Some p \<and> rd (partial_doc st) p = Inr (obj, new_pos)
       \<and> int (length (partial_doc st)) - 1 \<le> int new_pos \<and> is_number obj
       \<and> try_read (drop p (partial_doc st)) st = Inl err"
  then show "decode_loop (Suc fuel) rd is_number isdigit helper st = ([], Raised err)"
    by simp
next
  assume "cursor st = Some p \<and> helper (partial_doc st) p = Inr None
       \<and> try_read [] st = Inl err"
  then show "next_pos helper st = Inl err"
    by (simp add: next_pos.simps)
qed

theorem try_read_bounded_witness:
  "try_read (ustr ''y12'')
     \<lparr>stream = ustr ''abcdef'', bufsize = 4, max_bufsize = Some 6, cursor = Some 3,
      partial_doc = ustr ''xy12'', stream_offset = 0\<rparr>
     = Inr (True,
            \<lparr>stream = ustr ''def'', bufsize = 4, max_bufsize = Some 6, cursor = Some 0,
             partial_doc = ustr ''y12abc'', stream_offset = 1\<rparr>)
   \<and> try_read (ustr ''xy12ab'')
       \<lparr>stream = ustr ''abcdef'', bufsize = 4, max_bufsize = Some 6, cursor = Some 3,
        partial_doc = ustr ''xy12'', stream_offset = 0\<rparr>
     = Inl (ValueError Max_buffer_size_exceeded)"
proof -
  let ?st = "\<lparr>stream = ustr ''abcdef'', bufsize = 4, max_bufsize = Some 6, cursor = Some 3,
              partial_doc = ustr ''xy12'', stream_offset = 0\<rparr>"
  have shrunk: "try_read (ustr ''y12'') ?st
     = Inr (True,
            \<lparr>stream = ustr ''def'', bufsize = 4, max_bufsize = Some 6, cursor = Some 0,
             partial_doc = ustr ''y12abc'', stream_offset = 1\<rparr>)"
    using try_read_bounded [where st = ?st and m = 6 and rb = "ustr ''y12''",
        THEN conjunct2, THEN conjunct1]
    by (simp add: ustr_def)
  have full: "try_read (ustr ''xy12ab'') ?st = Inl (ValueError Max_buffer_size_exceeded)"
    using try_read_bounded [where st = ?st and m = 6 and rb = "ustr ''xy12ab''",
        THEN conjunct2, THEN conjunct2, THEN conjunct1]
    by (simp add: ustr_def)
  from shrunk full show ?thesis by simp
qed

text \<open>
  Claim C9. \<open>loads\<close> raises, whatever the parser, the decode error that names
  \<open>utf-8-sig\<close> for a \<open>str\<close> that starts with U+FEFF, and a type error for an object
  that is no \<open>str\<close>, \<open>bytes\<close> or \<open>bytearray\<close>; \<open>bytes\<close> and \<open>bytearray\<close> are
  decoded as UTF-8, and the decoded text is what is parsed.
\<close>

theorem loads_input_checks:
  "loads fuel rd utf8 (Str (BOM # t)) separator =
     Inl (JSONDecodeError
            \<lparr>msg = ''Unexpected UTF-8 BOM (decode using utf-8-sig)'', doc = BOM # t,
             pos = 0, ex_stream_offset = None\<rparr>)
   \<and> loads fuel rd utf8 (Other class_name) separator = Inl (TypeError class_name)
   \<and> loads fuel rd utf8 (Bytes bs) separator =
       (case utf8 bs of
          Inl e \<Rightarrow> Inl e
        | Inr text \<Rightarrow>
            Inr (decode_stacked fuel rd (fst (get_first_pos_and_next_pos_func separator)) text
                   (snd (get_first_pos_and_next_pos_func separator))))
   \<and> loads fuel rd utf8 (Bytearray bs) separator = loads fuel rd utf8 (Bytes bs) separator"
  by (simp add: loads_def startswith_at_def split: sum.splits prod.splits)

theorem loads_input_checks_witness:
  "loads 0 json_raw_decode Inr (Str [BOM, 49]) None =
     Inl (JSONDecodeError
            \<lparr>msg = ''Unexpected UTF-8 BOM (decode using utf-8-sig)'', doc = [BOM, 49],
             pos = 0, ex_stream_offset = None\<rparr>)
   \<and> loads 0 json_raw_decode Inr (Other ''int'') None = Inl (TypeError ''int'')"
  using loads_input_checks [of 0 json_raw_decode Inr "[49]" None "''int''" "[]"]
  by simp

section \<open>The truncated number and the empty input\<close>

lemma try_read_Inr:
  assumes "try_read rb st = Inr (got, st')"
  shows "\<exists>n. (1 \<le> bufsize st \<longrightarrow> 1 \<le> n)
             \<and> got = (fst (stream_read (stream st) n) \<noteq> [])
             \<and> st' = st\<lparr>stream := snd (stream_read (stream st) n),
                        stream_offset := stream_offset st
                           + (int (length (partial_doc st)) - int (length rb)),
                        partial_doc := rb @ fst (stream_read (stream st) n),
                        cursor := Some 0\<rparr>"
proof (cases "case max_bufsize st of None \<Rightarrow> False
                | Some m \<Rightarrow> int (length rb) + bufsize st > m")
  case False
  with assms show ?thesis
    by (intro exI [of _ "bufsize st"]) (auto simp: try_read_def Let_def split: prod.splits)
next
  case True
  then obtain m where m: "max_bufsize st = Some m" "int (length rb) + bufsize st > m"
    by (auto split: option.splits)
  with assms have "1 \<le> m - int (length rb)"
    by (auto simp: try_read_def Let_def split: if_splits)
  with assms m show ?thesis
    by (intro exI [of _ "m - int (length rb)"])
       (auto simp: try_read_def Let_def split: prod.splits if_splits)
qed

lemma try_read_stream_offset:
  assumes "try_read rb st = Inr (got, st')"
  shows "stream_offset st' = stream_offset st + (int (length (partial_doc st)) - int (length rb))"
    and "length rb \<le> length (partial_doc st) \<Longrightarrow> stream_offset st \<le> stream_offset st'"
  using try_read_Inr [OF assms] by auto

lemma stream_read_nothing:
  "1 \<le> n \<Longrightarrow> fst (stream_read src n) = [] \<Longrightarrow> src = []"
  by (auto simp: stream_read_def split: if_splits)

text \<open>
  Claim C3. When the parse at the cursor succeeds, ends at or within one unit of the
  end of the buffer, and gives a value of a numeric type, the loop asks for one refill
  with the tail from the cursor. If data arrives, the result is dropped and the loop
  parses again the buffer made of that tail and the new data, from its start; if
  none arrives the source is at its end and the value is yielded as it was parsed.
\<close>

theorem truncated_number_refill:
  assumes "cursor st = Some p" and "rd (partial_doc st) p = Inr (obj, new_pos)"
    and "int (length (partial_doc st)) - 1 \<le> int new_pos" and "is_number obj"
    and "1 \<le> bufsize st"
  shows "decode_loop (Suc fuel) rd is_number isdigit helper st =
           (case try_read (drop p (partial_doc st)) st of
              Inl e \<Rightarrow> ([], Raised e)
            | Inr (got, st') \<Rightarrow>
                if got then decode_loop fuel rd is_number isdigit helper st'
                else yield obj
                       (case next_pos helper (st'\<lparr>cursor := Some new_pos\<rparr>) of
                          Inl e \<Rightarrow> ([], Raised e)
                        | Inr (found, st'') \<Rightarrow>
                            if found then decode_loop fuel rd is_number isdigit helper st''
                            else ([], Finished)))
         \<and> (\<forall>got st'. try_read (drop p (partial_doc st)) st = Inr (got, st') \<longrightarrow>
               (\<exists>new. partial_doc st' = drop p (partial_doc st) @ new \<and> got = (new \<noteq> [])
                      \<and> cursor st' = Some 0 \<and> (\<not> got \<longrightarrow> stream st = [])))"
proof (intro conjI allI impI)
  show "decode_loop (Suc fuel) rd is_number isdigit helper st =
           (case try_read (drop p (partial_doc st)) st of
              Inl e \<Rightarrow> ([], Raised e)
            | Inr (got, st') \<Rightarrow>
                if got then decode_loop fuel rd is_number isdigit helper st'
                else yield obj
                       (case next_pos helper (st'\<lparr>cursor := Some new_pos\<rparr>) of
                          Inl e \<Rightarrow> ([], Raised e)
                        | Inr (found, st'') \<Rightarrow>
                            if found then decode_loop fuel rd is_number isdigit helper st''
                            else ([], Finished)))"
    using assms(1-4)
    by (simp add: emit_def split: sum.splits prod.splits)
next
  fix got st'
  assume "try_read (drop p (partial_doc st)) st = Inr (got, st')"
  from try_read_Inr [OF this] assms(5) obtain n where n: "1 \<le> n"
    "got = (fst (stream_read (stream st) n) \<noteq> [])"
    "st' = st\<lparr>stream := snd (stream_read (stream st) n),
              stream_offset := stream_offset st
                 + (int (length (partial_doc st)) - int (length (drop p (partial_doc st)))),
              partial_doc := drop p (partial_doc st) @ fst (stream_read (stream st) n),
              cursor := Some 0\<rparr>"
    by blast
  then show "\<exists>new. partial_doc st' = drop p (partial_doc st) @ new \<and> got = (new \<noteq> [])
                      \<and> cursor st' = Some 0 \<and> (\<not> got \<longrightarrow> stream st = [])"
    using stream_read_nothing [of n "stream st"]
    by (intro exI [of _ "fst (stream_read (stream st) n)"]) auto
qed

theorem truncated_number_refill_witness:
  "decode_loop (Suc (Suc 0)) json_raw_decode default_number_types is_ascii_digit
     next_position_by_non_whitespace
     \<lparr>stream = ustr ''3'', bufsize = 1, max_bufsize = None, cursor = Some 0,
      partial_doc = ustr ''12'', stream_offset = 0\<rparr>
   = ([JInt 123], Finished)"
proof -
  let ?st = "\<lparr>stream = ustr ''3'', bufsize = 1, max_bufsize = None, cursor = Some 0,
              partial_doc = ustr ''12'', stream_offset = 0\<rparr>"
  have c: "cursor ?st = Some 0" by simp
  have r: "json_raw_decode (partial_doc ?st) 0 = Inr (JInt 12, 2)" by code_simp
  have e: "int (length (partial_doc ?st)) - 1 \<le> int 2" by (simp add: ustr_def)
  have n: "default_number_types (JInt 12)" by simp
  have b: "1 \<le> bufsize ?st" by simp
  note step = truncated_number_refill [where fuel = "Suc 0" and isdigit = is_ascii_digit
      and helper = next_position_by_non_whitespace and st = ?st and p = 0
      and rd = json_raw_decode and obj = "JInt 12" and new_pos = 2
      and is_number = default_number_types, OF c r e n b, THEN conjunct1]
  show ?thesis
    unfolding step by code_simp
qed

lemma search_not_whitespace_None:
  "\<forall>c \<in> set xs. py_isspace c \<Longrightarrow> search_not_whitespace xs p = None"
  by (induction xs arbitrary: p) auto

lemma next_pos_whitespace:
  assumes "\<forall>c \<in> set (stream st). py_isspace c" and "\<forall>c \<in> set (partial_doc st). py_isspace c"
    and "cursor st = Some p" and "1 \<le> bufsize st"
    and "case max_bufsize st of None \<Rightarrow> True | Some m \<Rightarrow> 1 \<le> m"
  shows "\<exists>st'. next_pos next_position_by_non_whitespace st = Inr (False, st')"
  using assms
proof (induction "length (stream st)" arbitrary: st p rule: less_induct)
  case less
  have helper: "next_position_by_non_whitespace (partial_doc st) p = Inr None"
    using less.prems(2)
    by (auto simp: next_position_by_non_whitespace_def intro!: search_not_whitespace_None
          dest: in_set_dropD)
  have "\<exists>r. try_read [] st = Inr r"
    using less.prems(4,5)
    by (auto simp: try_read_def Let_def split: option.splits prod.splits)
  then obtain got st1 where r: "try_read [] st = Inr (got, st1)" by auto
  from try_read_Inr [OF r] obtain n where n:
    "got = (fst (stream_read (stream st) n) \<noteq> [])"
    "st1 = st\<lparr>stream := snd (stream_read (stream st) n),
              stream_offset := stream_offset st
                 + (int (length (partial_doc st)) - int (length ([]::pystr))),
              partial_doc := [] @ fst (stream_read (stream st) n),
              cursor := Some 0\<rparr>"
    by blast
  show ?case
  proof (cases got)
    case False
    with helper r less.prems(3) show ?thesis
      by (simp add: next_pos.simps [of _ st])
  next
    case True
    then have shorter: "length (stream st1) < length (stream st)"
      using n by (auto simp: stream_read_def split: if_splits)
    have ws1: "\<forall>c \<in> set (stream st1). py_isspace c"
      using n(2) less.prems(1) by (auto simp: stream_read_def dest: in_set_dropD split: if_splits)
    have ws2: "\<forall>c \<in> set (partial_doc st1). py_isspace c"
      using n(2) less.prems(1) by (auto simp: stream_read_def dest: in_set_takeD split: if_splits)
    have "\<exists>st'. next_pos next_position_by_non_whitespace st1 = Inr (False, st')"
      using less.hyps [OF shorter ws1 ws2, of 0] n(2) less.prems(4,5) by simp
    with helper r True less.prems(3) show ?thesis
      by (simp add: next_pos.simps [of _ st])
  qed
qed

text \<open>
  Claim C8. For a source of white space only (the empty one included), under the
  white-space policy, \<open>load\<close> at any read quantum of at least one and \<open>loads\<close> yield
  nothing and raise nothing; so they do on the empty input under a literal
  separator. The buffer bound, if there is one, is at least one.
\<close>

theorem whitespace_only_input:
  assumes "\<forall>c \<in> set src. py_isspace c" and "1 \<le> bsize"
    and "case max_bsize of None \<Rightarrow> True | Some m \<Rightarrow> 1 \<le> m"
  shows "load fuel rd is_number isdigit src None bsize max_bsize soffset = Inr ([], Finished)
       \<and> loads fuel' rd' utf8 (Str src) None = Inr ([], Finished)
       \<and> load fuel rd is_number isdigit [] separator bsize max_bsize soffset
           = Inr ([], Finished)
       \<and> loads fuel' rd' utf8 (Str []) separator = Inr ([], Finished)"
proof (intro conjI)
  let ?st = "\<lparr>stream = src, bufsize = bsize, max_bufsize = max_bsize, cursor = Some 0,
              partial_doc = [], stream_offset = soffset\<rparr>"
  have "\<exists>st'. next_pos next_position_by_non_whitespace ?st = Inr (False, st')"
    using assms by (intro next_pos_whitespace [where p = 0]) auto
  then show "load fuel rd is_number isdigit src None bsize max_bsize soffset
             = Inr ([], Finished)"
    using assms(2)
    by (auto simp: load_def get_first_pos_and_next_pos_func_def DecodeStream_init_def
          decode_stream_generator_def)
next
  have "BOM \<notin> set src"
    using assms(1) by (auto simp: BOM_def py_isspace_def)
  then have "\<not> startswith_at src [BOM] 0"
    by (cases src) (auto simp: startswith_at_def)
  moreover have "search_not_whitespace src 0 = None"
    using assms(1) by (rule search_not_whitespace_None)
  ultimately show "loads fuel' rd' utf8 (Str src) None = Inr ([], Finished)"
    by (simp add: loads_def get_first_pos_and_next_pos_func_def decode_stacked_def
          next_position_by_non_whitespace_def)
next
  have "\<exists>st'. next_pos next_position_by_non_whitespace
               \<lparr>stream = [], bufsize = bsize, max_bufsize = max_bsize, cursor = Some 0,
                partial_doc = [], stream_offset = soffset\<rparr> = Inr (False, st')"
    using assms(2,3) by (intro next_pos_whitespace [where p = 0]) auto
  moreover have "\<exists>st'. try_read []
               \<lparr>stream = [], bufsize = bsize, max_bufsize = max_bsize, cursor = Some 0,
                partial_doc = [], stream_offset = soffset\<rparr> = Inr (False, st')"
    using assms(2,3)
    by (auto simp: try_read_def Let_def stream_read_def split: option.splits)
  ultimately show "load fuel rd is_number isdigit [] separator bsize max_bsize soffset
                   = Inr ([], Finished)"
    using assms(2)
    by (cases separator)
       (auto simp: load_def get_first_pos_and_next_pos_func_def DecodeStream_init_def
          decode_stream_generator_def)
next
  show "loads fuel' rd' utf8 (Str []) separator = Inr ([], Finished)"
    by (simp add: loads_def startswith_at_def decode_stacked_def split: prod.splits)
qed

theorem whitespace_only_input_witness:
  "load 0 json_raw_decode default_number_types is_ascii_digit [32, 9, 10, 32] None 1 None 0
     = Inr ([], Finished)
   \<and> loads 0 json_raw_decode Inr (Str [32, 9, 10, 32]) None = Inr ([], Finished)"
proof -
  have w: "\<forall>c \<in> set [32, 9, 10, 32]. py_isspace c" by (simp add: py_isspace_def)
  have m: "case None of None \<Rightarrow> True | Some (m::int) \<Rightarrow> 1 \<le> m" by simp
  show ?thesis
    using whitespace_only_input [where bsize = 1 and max_bsize = None, OF w _ m,
        of 0 json_raw_decode default_number_types is_ascii_digit 0 0 json_raw_decode Inr None]
    by simp
qed

section \<open>The two loaders on concrete inputs\<close>

text \<open>The definitions to unfold to run the parser and the two loaders.\<close>

lemmas jdec = json_raw_decode_def match_number_def is_ascii_digit_def digits_value_def
  nextchar_ws_def after_comma_def ws_end_def json_ws_def Let_def ustr_def

lemmas jeng = load_def loads_def get_first_pos_and_next_pos_func_def DecodeStream_init_def
  decode_stream_generator_def decode_stacked_def next_pos.simps try_read_def
  emit_def update_error_def match_error_def float_split_def keyword_split_def
  error_message_pattern_def py_index_def next_position_by_separator_def startswith_at_def
  next_position_by_non_whitespace_def py_isspace_def KEYWORDS_def MAX_KEYWORD_LEN_eq
  Let_def ustr_def BOM_def is_ascii_digit_def


text \<open>
  Claim C1, on the code: the document \<open>1e+5\<close> is well formed, and \<open>loads\<close> yields
  the one float. Read one unit at a time, the buffer \<open>1e+\<close> parses as the integer
  \<open>1\<close> ending two units before the end of the buffer, which the check for a split
  number lets through: \<open>load\<close> yields \<open>1\<close> and raises. With the separator \<open>,\<close> and
  the default quantum, \<open>load\<close> on \<open>[],12\<close> yields both values and then raises
  the delimiter error, the cursor being kept from the buffer before the last refill.
\<close>

theorem split_number_diverges:
  "load (Suc (Suc (Suc (Suc 0)))) json_raw_decode default_number_types is_ascii_digit
     (ustr ''1e+5'') None 1 None 0
     = Inr ([JInt 1], Raised (JSONDecodeError
              \<lparr>msg = ''Expecting value'', doc = ustr ''1e+'', pos = 1,
               ex_stream_offset = Some 0\<rparr>))
   \<and> loads (Suc 0) json_raw_decode Inr (Str (ustr ''1e+5'')) None
     = Inr ([JFloat (ustr ''1e+5'')], Finished)
   \<and> load (Suc (Suc 0)) json_raw_decode default_number_types is_ascii_digit
     (ustr ''[],12'') (Some (ustr '','')) 1048576 None 0
     = Inr ([JArray [], JInt 12], Raised (ValueError (Expected_delimiter (ustr '',''))))
   \<and> loads (Suc (Suc 0)) json_raw_decode Inr (Str (ustr ''[],12'')) (Some (ustr '',''))
     = Inr ([JArray [], JInt 12], Finished)"
  by (simp add: jeng jdec stream_read_def)

text \<open>
  Claim C5, on the code: on the source \<open>[] nul\<close>, read at once, the error at the
  keyword is retried, the refill finds the source at its end and moves the stream
  offset by the three units before the cursor, and the error is raised with the
  position 3 in the buffer before the refill and the stream offset 3. \<open>loads\<close>
  reports the position 3.
\<close>

theorem failed_refill_offset:
  "load (Suc (Suc 0)) json_raw_decode default_number_types is_ascii_digit
     (ustr ''[] nul'') None 1048576 None 0
     = Inr ([JArray []], Raised (JSONDecodeError
              \<lparr>msg = ''Expecting value'', doc = ustr ''[] nul'', pos = 3,
               ex_stream_offset = Some 3\<rparr>))
   \<and> loads (Suc (Suc 0)) json_raw_decode Inr (Str (ustr ''[] nul'')) None
     = Inr ([JArray []], Raised (JSONDecodeError
              \<lparr>msg = ''Expecting value'', doc = ustr ''[] nul'', pos = 3,
               ex_stream_offset = None\<rparr>))"
  by (simp add: jeng jdec stream_read_def)

text \<open>The input \<open>[],,[]\<close> with the separator \<open>,\<close>, for each read quantum.\<close>

lemma empty_value_loads: "loads (Suc (Suc 0)) json_raw_decode utf8 (Str (ustr ''[],,[]'')) (Some (ustr '',''))
     = Inr ([JArray []], Raised (JSONDecodeError
              \<lparr>msg = ''Expecting value'', doc = ustr ''[],,[]'', pos = 3,
               ex_stream_offset = None\<rparr>))"
  by (simp add: jeng jdec)















end
